theory Spec2Isabelle
  imports Main "HOL-Library.Sublist"
begin

section \<open>The sw-cli command line front-end\<close>

text \<open>
  A shallow embedding of \<^verbatim>\<open>packages/sw-cli/src/index.js\<close> (class \<^verbatim>\<open>SWCli\<close>).
  Promises are values: the effects a promise performed, in order, together with the way
  it settled. The collaborators the class requires (the prompts, the config store, the
  build library, the argument parser) are fields of an environment record, so every
  theorem holds for all of them.
\<close>

subsection \<open>Values and promises\<close>

text \<open>
  The values the argument parser stores under a flag. Truthiness is JavaScript's:
  \<^verbatim>\<open>undefined\<close> (no entry), \<^verbatim>\<open>false\<close>, \<^verbatim>\<open>0\<close> and the empty string are falsy,
  every array is truthy. Numbers are kept as integers; the code only tests them for zero.
\<close>

datatype jsval = JBool bool | JNum int | JStr string | JArr "jsval list"

fun truthy :: "jsval option \<Rightarrow> bool" where
  "truthy None = False"
| "truthy (Some (JBool b)) = b"
| "truthy (Some (JNum n)) = (n \<noteq> 0)"
| "truthy (Some (JStr s)) = (s \<noteq> [])"
| "truthy (Some (JArr xs)) = True"

text \<open>Truthiness of a field that holds a string when it is set.\<close>

definition truthyStr :: "string option \<Rightarrow> bool" where
  "truthyStr v = (case v of None \<Rightarrow> False | Some s \<Rightarrow> s \<noteq> [])"

text \<open>
  The configuration object of a run, with the fields and the types of the data model. A
  field that is \<open>None\<close> is absent from the object (\<^verbatim>\<open>undefined\<close> when read). An
  array is truthy even when empty, a string only when it is not empty.
\<close>

record config =
  rootDirectory :: "string option"
  globPatterns :: "string list option"
  globIgnores :: "string list option"
  dest :: "string option"
  wasSaved :: "bool option"

definition emptyConfig :: config where
  "emptyConfig = \<lparr>rootDirectory = None, globPatterns = None, globIgnores = None,
     dest = None, wasSaved = None\<rparr>"

text \<open>The result of \<^verbatim>\<open>minimist(argv)\<close>: the non-flag tokens (\<^verbatim>\<open>cliArgs._\<close>) and the flags.\<close>

record cliargs =
  positional :: "string list"
  flagValue :: "string \<Rightarrow> jsval option"

text \<open>A promise settles with a value, settles with a rejection, or never settles.\<close>

datatype 'a outcome = Resolved 'a | Rejected | Pending

text \<open>The effects of a run that can be observed from outside, one event per call.\<close>

datatype event =
    UpdateNotify
  | Log string
  | LogError string
  | GetConfigFile
  | AskForRootOfWebApp
  | AskForExtensionsToCache "string option"
  | AskForServiceWorkerName
  | AskSaveConfigFile
  | AskManifestFileName
  | SaveConfigFile config
  | GenerateSW config
  | GenerateFileManifest config

type_synonym 'a promise = "event list \<times> 'a outcome"

definition resolveP :: "'a \<Rightarrow> 'a promise" where
  "resolveP x = ([], Resolved x)"

definition rejectP :: "'a promise" where
  "rejectP = ([], Rejected)"

text \<open>Calling a collaborator: the call is recorded, its promise is the result.\<close>

definition call :: "event \<Rightarrow> 'a outcome \<Rightarrow> 'a promise" where
  "call ev out = ([ev], out)"

text \<open>
  \<^verbatim>\<open>p.then(f)\<close>: the callback runs only when \<^verbatim>\<open>p\<close> resolves; a rejection passes
  through and a promise that never settles never runs it.
\<close>

fun thenP :: "'a promise \<Rightarrow> ('a \<Rightarrow> 'b promise) \<Rightarrow> 'b promise" where
  "thenP (tr, Resolved x) f = (case f x of (tr', out) \<Rightarrow> (tr @ tr', out))"
| "thenP (tr, Rejected) f = (tr, Rejected)"
| "thenP (tr, Pending) f = (tr, Pending)"

subsection \<open>The path functions of the platform\<close>

text \<open>
  \<^verbatim>\<open>path.join\<close>, \<^verbatim>\<open>path.relative\<close> and \<^verbatim>\<open>path.sep\<close> belong to Node, not to the
  repository. They are modelled after Node's POSIX implementation, on the segments of a
  path: \<^verbatim>\<open>normalize\<close> drops empty and \<^verbatim>\<open>.\<close> segments and resolves \<^verbatim>\<open>..\<close>, keeps a
  trailing separator, and returns \<^verbatim>\<open>.\<close> for an empty relative result; \<^verbatim>\<open>join\<close>
  concatenates its non-empty arguments with the separator and normalizes; \<^verbatim>\<open>relative\<close>
  resolves both paths against the working directory, drops their common leading
  segments, and climbs out of what is left of the first.
\<close>

definition path_sep :: string where
  "path_sep = ''/''"

fun splitSep :: "string \<Rightarrow> string list" where
  "splitSep [] = [Nil]"
| "splitSep (c # cs) =
     (if c = CHR ''/'' then [] # splitSep cs
      else (case splitSep cs of [] \<Rightarrow> [c # Nil] | s # ss \<Rightarrow> (c # s) # ss))"

fun joinSep :: "string list \<Rightarrow> string" where
  "joinSep [] = []"
| "joinSep [s] = s"
| "joinSep (s # t # ss) = s @ ''/'' @ joinSep (t # ss)"

fun normalizeSegments :: "bool \<Rightarrow> string list \<Rightarrow> string list \<Rightarrow> string list" where
  "normalizeSegments allowAboveRoot res [] = res"
| "normalizeSegments allowAboveRoot res (s # ss) =
     (if s = [] \<or> s = ''.'' then normalizeSegments allowAboveRoot res ss
      else if s = ''..'' then
        (if res \<noteq> [] \<and> last res \<noteq> ''..''
           then normalizeSegments allowAboveRoot (butlast res) ss
         else if allowAboveRoot
           then normalizeSegments allowAboveRoot (res @ [''..'']) ss
         else normalizeSegments allowAboveRoot res ss)
      else normalizeSegments allowAboveRoot (res @ [s]) ss)"

definition normalizeString :: "string \<Rightarrow> bool \<Rightarrow> string" where
  "normalizeString p allowAboveRoot =
     joinSep (normalizeSegments allowAboveRoot [] (splitSep p))"

definition path_normalize :: "string \<Rightarrow> string" where
  "path_normalize p =
     (if p = [] then ''.''
      else
        let isAbsolute = (hd p = CHR ''/'');
            trailingSeparator = (last p = CHR ''/'');
            q = normalizeString p (\<not> isAbsolute);
            q = (if q = [] \<and> \<not> isAbsolute then ''.'' else q);
            q = (if q \<noteq> [] \<and> trailingSeparator then q @ ''/'' else q)
        in if isAbsolute then ''/'' @ q else q)"

definition path_join :: "string list \<Rightarrow> string" where
  "path_join args =
     (let parts = filter (\<lambda>a. a \<noteq> []) args
      in if parts = [] then ''.'' else path_normalize (joinSep parts))"

text \<open>\<^verbatim>\<open>path.resolve(p)\<close> with the working directory \<open>wd\<close> of the process.\<close>

definition path_resolve :: "string \<Rightarrow> string \<Rightarrow> string" where
  "path_resolve wd p =
     (let pAbsolute = (p \<noteq> [] \<and> hd p = CHR ''/'');
          resolvedPath = (if pAbsolute then p @ ''/''
                          else if p = [] then wd @ ''/''
                          else wd @ ''/'' @ p @ ''/'');
          resolvedAbsolute = (pAbsolute \<or> (wd \<noteq> [] \<and> hd wd = CHR ''/''));
          q = normalizeString resolvedPath (\<not> resolvedAbsolute)
      in if resolvedAbsolute then ''/'' @ q
         else if q \<noteq> [] then q else ''.'')"

fun dropCommon :: "string list \<Rightarrow> string list \<Rightarrow> string list \<times> string list" where
  "dropCommon (x # xs) (y # ys) =
     (if x = y then dropCommon xs ys else (x # xs, y # ys))"
| "dropCommon xs ys = (xs, ys)"

definition segments :: "string \<Rightarrow> string list" where
  "segments p = filter (\<lambda>s. s \<noteq> []) (splitSep p)"

definition path_relative :: "string \<Rightarrow> string \<Rightarrow> string \<Rightarrow> string" where
  "path_relative wd fromPath toPath =
     (if fromPath = toPath then []
      else
        let f = path_resolve wd fromPath; t = path_resolve wd toPath
        in if f = t then []
           else (case dropCommon (segments f) (segments t) of
                   (fs, ts) \<Rightarrow> joinSep (replicate (length fs) ''..'' @ ts)))"

subsection \<open>The environment\<close>

text \<open>
  Everything \<^verbatim>\<open>index.js\<close> requires from outside: the contents of \<^verbatim>\<open>cli-help.txt\<close>, the
  version of \<^verbatim>\<open>package.json\<close>, the working directory, the argument parser, and the
  promise each collaborator returns (as a function of the arguments it is called with).
  \<^verbatim>\<open>getConfigFile\<close> resolves to the saved configuration, or to a falsy value (\<open>None\<close>)
  when there is none. The help file is taken to be readable, and a collaborator fails by
  rejecting its promise, not by throwing when it is called.
\<close>

record env =
  helpText :: string
  pkgVersion :: string
  cwd :: string
  minimist :: "string list \<Rightarrow> cliargs"
  getConfigFile :: "config option outcome"
  askForRootOfWebApp :: "string outcome"
  askForExtensionsToCache :: "string option \<Rightarrow> string list outcome"
  askForServiceWorkerName :: "string outcome"
  askSaveConfigFile :: "bool outcome"
  askManifestFileName :: "string outcome"
  saveConfigFile :: "config \<Rightarrow> unit outcome"
  generateGlobPattern :: "string option \<Rightarrow> string list \<Rightarrow> string"
  swBuild_generateSW :: "config \<Rightarrow> unit outcome"
  swBuild_generateFileManifest :: "config \<Rightarrow> unit outcome"

subsection \<open>\<^verbatim>\<open>_generateSW\<close>\<close>

text \<open>
  The seven \<^verbatim>\<open>then\<close> callbacks of the chain, in the order of the source. The variable
  \<^verbatim>\<open>config\<close> they share is passed from one to the next.
\<close>

text \<open>
  The first callback: a saved configuration replaces the empty one and is marked
  \<^verbatim>\<open>wasSaved\<close>.
\<close>

definition adoptSavedConfig :: "config option \<Rightarrow> config" where
  "adoptSavedConfig savedConfig =
     (case savedConfig of
        Some c \<Rightarrow> c\<lparr>wasSaved := Some True\<rparr>
      | None \<Rightarrow> emptyConfig)"

definition loadSavedConfig :: "env \<Rightarrow> config promise" where
  "loadSavedConfig e =
     thenP (call GetConfigFile (getConfigFile e))
       (\<lambda>savedConfig. resolveP (adoptSavedConfig savedConfig))"

definition rootDirectoryStep :: "env \<Rightarrow> config \<Rightarrow> config promise" where
  "rootDirectoryStep e config =
     (if \<not> truthyStr (rootDirectory config) then
        thenP (call AskForRootOfWebApp (askForRootOfWebApp e))
          (\<lambda>rDirectory. resolveP (config\<lparr>rootDirectory :=
              Some (path_join [''.'', path_relative (cwd e) (cwd e) rDirectory, path_sep])\<rparr>))
      else resolveP config)"

definition globPatternsStep :: "env \<Rightarrow> config \<Rightarrow> config promise" where
  "globPatternsStep e config =
     (if globPatterns config = None then
        thenP (call (AskForExtensionsToCache (rootDirectory config))
                 (askForExtensionsToCache e (rootDirectory config)))
          (\<lambda>extensionsToCache. resolveP (config\<lparr>globPatterns :=
              Some [generateGlobPattern e (rootDirectory config) extensionsToCache]\<rparr>))
      else resolveP config)"

text \<open>\<^verbatim>\<open>path.join\<close> throws on an argument that is not a string, which rejects the promise.\<close>

definition destStep :: "env \<Rightarrow> config \<Rightarrow> config promise" where
  "destStep e config =
     (if \<not> truthyStr (dest config) then
        thenP (call AskForServiceWorkerName (askForServiceWorkerName e))
          (\<lambda>swName. case rootDirectory config of
                       None \<Rightarrow> rejectP
                     | Some r \<Rightarrow>
                         (let swDest = path_join [r, swName]
                          in resolveP (config\<lparr>dest := Some swDest,
                                                 globIgnores := Some [swDest]\<rparr>)))
      else resolveP config)"

definition askSaveStep :: "env \<Rightarrow> config \<Rightarrow> (config \<times> bool) promise" where
  "askSaveStep e config =
     (if wasSaved config \<noteq> Some True then
        thenP (call AskSaveConfigFile (askSaveConfigFile e))
          (\<lambda>saveConfig. resolveP (config, saveConfig))
      else resolveP (config, False))"

definition saveStep :: "env \<Rightarrow> config \<times> bool \<Rightarrow> config promise" where
  "saveStep e cs =
     (case cs of (config, saveConfig) \<Rightarrow>
        if saveConfig then
          thenP (call (SaveConfigFile config) (saveConfigFile e config))
            (\<lambda>_. resolveP config)
        else resolveP config)"

definition buildStep :: "env \<Rightarrow> config \<Rightarrow> unit promise" where
  "buildStep e config = call (GenerateSW config) (swBuild_generateSW e config)"

definition generateSW :: "env \<Rightarrow> unit promise" where
  "generateSW e =
     thenP (thenP (thenP (thenP (thenP (thenP (loadSavedConfig e)
       (rootDirectoryStep e)) (globPatternsStep e)) (destStep e))
       (askSaveStep e)) (saveStep e)) (buildStep e)"

subsection \<open>\<^verbatim>\<open>_generateBuildManifest\<close>\<close>

definition generateBuildManifest :: "env \<Rightarrow> unit promise" where
  "generateBuildManifest e =
     thenP (call AskForRootOfWebApp (askForRootOfWebApp e)) (\<lambda>rootDirPath.
     thenP (call (AskForExtensionsToCache (Some rootDirPath))
              (askForExtensionsToCache e (Some rootDirPath))) (\<lambda>fileExtentionsToCache.
     thenP (call AskManifestFileName (askManifestFileName e)) (\<lambda>fileManifestName.
       (let globPattern = generateGlobPattern e (Some rootDirPath) fileExtentionsToCache;
            manifestConfig = \<lparr>rootDirectory = Some rootDirPath,
              globPatterns = Some [globPattern],
              globIgnores = Some [path_join [rootDirPath, fileManifestName]],
              dest = Some (path_join [rootDirPath, fileManifestName]),
              wasSaved = None\<rparr>
        in call (GenerateFileManifest manifestConfig)
             (swBuild_generateFileManifest e manifestConfig)))))"

subsection \<open>Dispatch\<close>

definition printHelpText :: "env \<Rightarrow> event list" where
  "printHelpText e = [Log (helpText e)]"

definition handleFlag :: "env \<Rightarrow> cliargs \<Rightarrow> unit promise" where
  "handleFlag e flags =
     (let (tr, handled) =
            (if truthy (flagValue flags ''h'') \<or> truthy (flagValue flags ''help'')
             then (printHelpText e, True) else ([], False));
          (tr, handled) =
            (if truthy (flagValue flags ''v'') \<or> truthy (flagValue flags ''version'')
             then (tr @ [Log (pkgVersion e)], True) else (tr, handled))
      in if handled then (tr, Resolved ())
         else (tr @ printHelpText e, Rejected))"

definition invalidCommandMessage :: "string \<Rightarrow> string" where
  "invalidCommandMessage command =
     ''Invlaid command given '' @ [CHR 0x27] @ command @ [CHR 0x27]"

definition handleCommand :: "env \<Rightarrow> string \<Rightarrow> string list \<Rightarrow> cliargs \<Rightarrow> unit promise" where
  "handleCommand e command args flags =
     (if command = ''generate:sw'' then generateSW e
      else if command = ''generate:manifest'' then generateBuildManifest e
      else ([LogError (invalidCommandMessage command)], Rejected))"

text \<open>
  \<^verbatim>\<open>.then(() => process.exit(0)).catch(() => process.exit(1))\<close>: the status the process
  exits with, if it exits.
\<close>

fun exitOn :: "unit promise \<Rightarrow> event list \<times> nat option" where
  "exitOn (tr, Resolved u) = (tr, Some 0)"
| "exitOn (tr, Rejected) = (tr, Some 1)"
| "exitOn (tr, Pending) = (tr, None)"

text \<open>
  \<^verbatim>\<open>cliArgs._.splice(1)\<close> removes the arguments from \<^verbatim>\<open>cliArgs._\<close> before \<^verbatim>\<open>cliArgs\<close>
  is passed on as the flags.
\<close>

definition argv :: "env \<Rightarrow> string list \<Rightarrow> event list \<times> nat option" where
  "argv e args =
     (let cliArgs = minimist e args;
          (tr, status) =
            (case positional cliArgs of
               command # rest \<Rightarrow>
                 exitOn (handleCommand e command rest (cliArgs\<lparr>positional := [command]\<rparr>))
             | [] \<Rightarrow> exitOn (handleFlag e cliArgs))
      in (UpdateNotify # tr, status))"

subsection \<open>What is observed of a run\<close>

text \<open>
  The invariant of the data model: the output path is among the ignored paths of the
  configuration.
\<close>

definition containsDest :: "config \<Rightarrow> bool" where
  "containsDest c =
     (case dest c of
        None \<Rightarrow> False
      | Some d \<Rightarrow> (case globIgnores c of None \<Rightarrow> False | Some ignores \<Rightarrow> d \<in> set ignores))"

text \<open>
  The three fields a prompt can fill, in the order of the callbacks, the prompt that fills
  each, and the test the code applies to a field (\<^verbatim>\<open>!config.rootDirectory\<close>,
  \<^verbatim>\<open>!config.globPatterns\<close>, \<^verbatim>\<open>!config.dest\<close>): an absent field is falsy, and so is
  an empty string.
\<close>

datatype field = RootDirectory | GlobPatterns | Dest

fun promptFor :: "event \<Rightarrow> field option" where
  "promptFor AskForRootOfWebApp = Some RootDirectory"
| "promptFor (AskForExtensionsToCache r) = Some GlobPatterns"
| "promptFor AskForServiceWorkerName = Some Dest"
| "promptFor ev = None"

fun fieldFalsy :: "config \<Rightarrow> field \<Rightarrow> bool" where
  "fieldFalsy c RootDirectory = (\<not> truthyStr (rootDirectory c))"
| "fieldFalsy c GlobPatterns = (globPatterns c = None)"
| "fieldFalsy c Dest = (\<not> truthyStr (dest c))"

text \<open>The fields that were prompted for during a run, in the order of the prompts.\<close>

definition promptsRun :: "event list \<Rightarrow> field list" where
  "promptsRun tr = List.map_filter promptFor tr"

subsection \<open>The two halves of the \<^verbatim>\<open>_generateSW\<close> chain\<close>

text \<open>
  The first four callbacks assemble the configuration; the last three offer to save it
  and call the build library. The proofs treat the halves separately.
\<close>

definition assembleConfig :: "env \<Rightarrow> config promise" where
  "assembleConfig e =
     thenP (thenP (thenP (loadSavedConfig e) (rootDirectoryStep e)) (globPatternsStep e)) (destStep e)"

definition saveAndBuild :: "env \<Rightarrow> config \<Rightarrow> unit promise" where
  "saveAndBuild e config = thenP (thenP (askSaveStep e config) (saveStep e)) (buildStep e)"

subsection \<open>Scripted environments\<close>

text \<open>
  Environments with scripted answers, on which the theorems are instantiated. The
  stand-in for the argument parser makes every token that starts with a dash a flag set
  to \<^verbatim>\<open>true\<close> and every other token positional, which is what minimist returns for the
  invocations used below (no flag is followed by a value). The stand-in for the glob
  builder only has to be some function.
\<close>

definition scriptedParse :: "string list \<Rightarrow> cliargs" where
  "scriptedParse args =
     \<lparr>positional = filter (\<lambda>a. take 1 a \<noteq> ''-'') args,
      flagValue = (\<lambda>k. if ''--'' @ k \<in> set args \<or> ''-'' @ k \<in> set args
                        then Some (JBool True) else None)\<rparr>"

definition scriptedGlob :: "string option \<Rightarrow> string list \<Rightarrow> string" where
  "scriptedGlob root exts =
     (case root of Some r \<Rightarrow> r | None \<Rightarrow> []) @ ''**/*.'' @ concat exts"

text \<open>
  No saved configuration; the user answers \<^verbatim>\<open>build\<close>, \<^verbatim>\<open>html\<close>, \<^verbatim>\<open>sw.js\<close> and yes,
  and every collaborator succeeds.
\<close>

definition freshEnv :: env where
  "freshEnv =
     \<lparr>helpText = ''Usage: sw-cli <command>'',
      pkgVersion = ''0.0.1'',
      cwd = ''/home/user/app'',
      minimist = scriptedParse,
      getConfigFile = Resolved None,
      askForRootOfWebApp = Resolved ''build'',
      askForExtensionsToCache = (\<lambda>r. Resolved [''html'']),
      askForServiceWorkerName = Resolved ''sw.js'',
      askSaveConfigFile = Resolved True,
      askManifestFileName = Resolved ''manifest.js'',
      saveConfigFile = (\<lambda>c. Resolved ()),
      generateGlobPattern = scriptedGlob,
      swBuild_generateSW = (\<lambda>c. Resolved ()),
      swBuild_generateFileManifest = (\<lambda>c. Resolved ())\<rparr>"

text \<open>The configuration that run saves, and an environment that finds it saved.\<close>

definition savedExample :: config where
  "savedExample =
     \<lparr>rootDirectory = Some ''build/'', globPatterns = Some [''build/**/*.html''],
      globIgnores = Some [''build/sw.js''], dest = Some ''build/sw.js'', wasSaved = None\<rparr>"

definition savedEnv :: env where
  "savedEnv = freshEnv\<lparr>getConfigFile := Resolved (Some savedExample)\<rparr>"

text \<open>A saved file whose root directory is the empty string.\<close>

definition emptyRootEnv :: env where
  "emptyRootEnv =
     freshEnv\<lparr>getConfigFile := Resolved (Some (savedExample\<lparr>rootDirectory := Some ''''\<rparr>))\<rparr>"


text \<open>A saved file that names an output path and no ignored paths.\<close>

definition noIgnoresEnv :: env where
  "noIgnoresEnv =
     freshEnv\<lparr>getConfigFile := Resolved (Some (savedExample\<lparr>globIgnores := None\<rparr>))\<rparr>"

text \<open>The user answers the root directory prompt with the empty string.\<close>

definition emptyAnswerEnv :: env where
  "emptyAnswerEnv = freshEnv\<lparr>askForRootOfWebApp := Resolved ''''\<rparr>"

text \<open>The configuration the manifest delegate receives in the first environment.\<close>

definition manifestExample :: config where
  "manifestExample =
     \<lparr>rootDirectory = Some ''build'', globPatterns = Some [''build**/*.html''],
      globIgnores = Some [''build/manifest.js''], dest = Some ''build/manifest.js'',
      wasSaved = None\<rparr>"

text \<open>
  A directory name as a user types it: not empty, no separator, and neither of the two
  special segments.
\<close>

definition simpleName :: "string \<Rightarrow> bool" where
  "simpleName n \<longleftrightarrow> n \<noteq> [] \<and> CHR ''/'' \<notin> set n \<and> n \<noteq> ''.'' \<and> n \<noteq> ''..''"






section \<open>Properties\<close>

subsection \<open>Promises\<close>

declare thenP.simps [simp del]

lemma thenP_pair:
  "thenP (tr, out) f =
     (case out of Resolved x \<Rightarrow> (tr @ fst (f x), snd (f x))
      | Rejected \<Rightarrow> (tr, Rejected) | Pending \<Rightarrow> (tr, Pending))"
  by (cases out) (auto simp: thenP.simps split: prod.splits)

lemma fst_thenP:
  "fst (thenP p f) = fst p @ (case snd p of Resolved x \<Rightarrow> fst (f x) | Rejected \<Rightarrow> [] | Pending \<Rightarrow> [])"
  by (cases p) (simp add: thenP_pair split: outcome.splits)

lemma snd_thenP:
  "snd (thenP p f) =
     (case snd p of Resolved x \<Rightarrow> snd (f x) | Rejected \<Rightarrow> Rejected | Pending \<Rightarrow> Pending)"
  by (cases p) (simp add: thenP_pair split: outcome.splits)

lemma thenP_assoc: "thenP (thenP p f) g = thenP p (\<lambda>x. thenP (f x) g)"
  by (rule prod_eqI) (auto simp: fst_thenP snd_thenP split: outcome.splits)

lemma thenP_events:
  assumes "\<And>ev. ev \<in> set (fst p) \<Longrightarrow> P ev"
    and "\<And>x ev. ev \<in> set (fst (f x)) \<Longrightarrow> P ev"
  shows "ev \<in> set (fst (thenP p f)) \<Longrightarrow> P ev"
  using assms by (auto simp: fst_thenP split: outcome.splits)

subsection \<open>The path functions\<close>

lemma splitSep_not_Nil: "splitSep p \<noteq> []"
  by (induction p) (auto split: list.splits)

lemma splitSep_no_sep: "CHR ''/'' \<notin> set n \<Longrightarrow> splitSep n = [n]"
  by (induction n) auto

lemma splitSep_append_sep: "splitSep (a @ CHR ''/'' # b) = splitSep a @ splitSep b"
proof (induction a)
  case Nil
  then show ?case by simp
next
  case (Cons c cs)
  then show ?case
    using splitSep_not_Nil [of cs] by (cases "splitSep cs") auto
qed

lemma splitSep_elems: "s \<in> set (splitSep p) \<Longrightarrow> CHR ''/'' \<notin> set s"
  by (induction p arbitrary: s) (auto split: if_splits list.splits)

lemma normalizeSegments_append:
  "normalizeSegments a res (xs @ ys) = normalizeSegments a (normalizeSegments a res xs) ys"
  by (induction xs arbitrary: res) auto

lemma normalizeSegments_elems:
  assumes "\<forall>s \<in> set res. s \<noteq> [] \<and> CHR ''/'' \<notin> set s"
    and "\<forall>s \<in> set xs. CHR ''/'' \<notin> set s"
  shows "\<forall>s \<in> set (normalizeSegments a res xs). s \<noteq> [] \<and> CHR ''/'' \<notin> set s"
  using assms
proof (induction xs arbitrary: res)
  case Nil
  then show ?case by simp
next
  case (Cons x xs)
  from Cons.prems(2) have xs: "\<forall>s \<in> set xs. CHR ''/'' \<notin> set s" and x: "CHR ''/'' \<notin> set x"
    by simp_all
  have keep: "\<forall>s \<in> set (normalizeSegments a res xs). s \<noteq> [] \<and> CHR ''/'' \<notin> set s"
    by (rule Cons.IH [OF Cons.prems(1) xs])
  have "\<forall>s \<in> set (butlast res). s \<noteq> [] \<and> CHR ''/'' \<notin> set s"
    using Cons.prems(1) by (auto dest: in_set_butlastD)
  then have pop: "\<forall>s \<in> set (normalizeSegments a (butlast res) xs). s \<noteq> [] \<and> CHR ''/'' \<notin> set s"
    by (rule Cons.IH [OF _ xs])
  have "\<forall>s \<in> set (res @ [''..'']). s \<noteq> [] \<and> CHR ''/'' \<notin> set s"
    using Cons.prems(1) by simp
  then have up: "\<forall>s \<in> set (normalizeSegments a (res @ [''..'']) xs). s \<noteq> [] \<and> CHR ''/'' \<notin> set s"
    by (rule Cons.IH [OF _ xs])
  have push: "\<forall>s \<in> set (normalizeSegments a (res @ [x]) xs). s \<noteq> [] \<and> CHR ''/'' \<notin> set s"
    if "x \<noteq> []"
  proof (rule Cons.IH [OF _ xs])
    show "\<forall>s \<in> set (res @ [x]). s \<noteq> [] \<and> CHR ''/'' \<notin> set s"
      using Cons.prems(1) x that by simp
  qed
  show ?case
    using keep pop up push by (simp del: set_append)
qed

lemma splitSep_joinSep:
  "R \<noteq> [] \<Longrightarrow> \<forall>s \<in> set R. CHR ''/'' \<notin> set s \<Longrightarrow> splitSep (joinSep R) = R"
proof (induction R rule: joinSep.induct)
  case 1
  then show ?case by simp
next
  case (2 s)
  then show ?case by (simp add: splitSep_no_sep)
next
  case (3 s t ss)
  then show ?case
    by (simp add: splitSep_append_sep splitSep_no_sep)
qed

lemma segments_absolute:
  assumes "\<forall>s \<in> set R. s \<noteq> [] \<and> CHR ''/'' \<notin> set s"
  shows "segments (CHR ''/'' # joinSep R) = R"
proof (cases "R = []")
  case True
  then show ?thesis by (simp add: segments_def)
next
  case False
  with assms have "splitSep (joinSep R) = R"
    by (simp add: splitSep_joinSep)
  with assms show ?thesis
    by (simp add: segments_def filter_id_conv)
qed

lemma dropCommon_prefix: "dropCommon R (R @ ys) = ([], ys)"
proof (induction R)
  case Nil
  then show ?case by (cases ys) simp_all
next
  case (Cons a R)
  then show ?case by simp
qed

lemma length_joinSep_snoc:
  "length (joinSep (R @ [x])) = length (joinSep R) + length x + (if R = [] then 0 else 1)"
  by (induction R rule: joinSep.induct) auto

lemma joinSep_snoc_neq: "x \<noteq> [] \<Longrightarrow> joinSep R \<noteq> joinSep (R @ [x])"
proof
  assume "x \<noteq> []" and "joinSep R = joinSep (R @ [x])"
  then have "length (joinSep R) = length (joinSep (R @ [x]))"
    by simp
  with \<open>x \<noteq> []\<close> show False
    by (simp add: length_joinSep_snoc)
qed

lemma path_resolve_self:
  assumes "wd \<noteq> []" "hd wd = CHR ''/''"
  shows "path_resolve wd wd = CHR ''/'' # joinSep (normalizeSegments False [] (splitSep wd))"
proof -
  have "splitSep (wd @ ''/'') = splitSep wd @ [Nil]"
    using splitSep_append_sep [of wd "[]"] by simp
  then show ?thesis
    using assms by (simp add: path_resolve_def normalizeString_def normalizeSegments_append)
qed

lemma path_resolve_child:
  assumes "wd \<noteq> []" "hd wd = CHR ''/''" and "simpleName n"
  shows "path_resolve wd n =
     CHR ''/'' # joinSep (normalizeSegments False [] (splitSep wd) @ [n])"
proof -
  have n': "n \<noteq> []" "CHR ''/'' \<notin> set n" "n \<noteq> ''.''" "n \<noteq> ''..''"
    using assms(3) by (simp_all add: simpleName_def)
  have hn: "hd n \<noteq> CHR ''/''"
    using n' by (cases n) auto
  have "splitSep (n @ ''/'') = [n, []]"
    using splitSep_append_sep [of n "[]"] n' by (simp add: splitSep_no_sep)
  then have "splitSep (wd @ ''/'' @ n @ ''/'') = splitSep wd @ [n, []]"
    using splitSep_append_sep [of wd "n @ ''/''"] by simp
  then show ?thesis
    using assms(1,2) n' hn
    by (simp add: path_resolve_def normalizeString_def normalizeSegments_append)
qed

text \<open>
  From an absolute working directory, the relative path to a directory name is the name,
  and the relative path to the working directory itself is empty.
\<close>

lemma path_relative_child:
  assumes wd: "wd \<noteq> []" "hd wd = CHR ''/''" and n: "simpleName n"
  shows "path_relative wd wd n = n"
proof -
  define R where "R = normalizeSegments False [] (splitSep wd)"
  have R: "\<forall>s \<in> set R. s \<noteq> [] \<and> CHR ''/'' \<notin> set s"
    unfolding R_def by (rule normalizeSegments_elems) (auto dest: splitSep_elems)
  have n': "n \<noteq> []" "CHR ''/'' \<notin> set n"
    using n by (simp_all add: simpleName_def)
  have ne: "wd \<noteq> n"
    using wd n' by (cases wd) auto
  have f: "path_resolve wd wd = CHR ''/'' # joinSep R"
    unfolding R_def by (rule path_resolve_self [OF wd])
  have t: "path_resolve wd n = CHR ''/'' # joinSep (R @ [n])"
    unfolding R_def by (rule path_resolve_child [OF wd n])
  have sf: "segments (CHR ''/'' # joinSep R) = R"
    by (rule segments_absolute [OF R])
  have st: "segments (CHR ''/'' # joinSep (R @ [n])) = R @ [n]"
    using R n' by (intro segments_absolute) auto
  show ?thesis
    using ne joinSep_snoc_neq [of n R] n'
    by (simp add: path_relative_def f t sf st dropCommon_prefix)
qed

lemma path_relative_self:
  assumes "wd \<noteq> []" "hd wd = CHR ''/''"
  shows "path_relative wd wd [] = []"
  using assms by (simp add: path_relative_def path_resolve_def)

lemma path_join_dot_name:
  assumes "simpleName n"
  shows "path_join [''.'', n, path_sep] = n @ ''/''"
proof -
  have n': "n \<noteq> []" "CHR ''/'' \<notin> set n" "n \<noteq> ''.''" "n \<noteq> ''..''"
    using assms by (simp_all add: simpleName_def)
  have "splitSep (''./'' @ n @ ''//'') = [''.'', n, [], []]"
    using splitSep_append_sep [of "''.''" "n @ ''//''"] splitSep_append_sep [of n "''/''"] n'
    by (simp add: splitSep_no_sep)
  then show ?thesis
    using n' by (simp add: path_join_def path_sep_def path_normalize_def normalizeString_def)
qed

lemma path_join_dot_empty: "path_join [''.'', [], path_sep] = ''./''"
  by (simp add: path_join_def path_sep_def path_normalize_def normalizeString_def)

lemma simpleName_build: "simpleName ''build''"
  by (simp add: simpleName_def)

subsection \<open>The callbacks of \<^verbatim>\<open>_generateSW\<close>, one by one\<close>

lemma loadSavedConfig_alt:
  "loadSavedConfig e =
     (case getConfigFile e of
        Resolved saved \<Rightarrow> ([GetConfigFile], Resolved (adoptSavedConfig saved))
      | Rejected \<Rightarrow> ([GetConfigFile], Rejected)
      | Pending \<Rightarrow> ([GetConfigFile], Pending))"
  by (simp add: loadSavedConfig_def adoptSavedConfig_def call_def resolveP_def thenP_pair
        split: outcome.splits)

lemma rootDirectoryStep_alt:
  "rootDirectoryStep e c =
     (if truthyStr (rootDirectory c) then ([], Resolved c)
      else (case askForRootOfWebApp e of
              Resolved r \<Rightarrow> ([AskForRootOfWebApp], Resolved (c\<lparr>rootDirectory :=
                 Some (path_join [''.'', path_relative (cwd e) (cwd e) r, path_sep])\<rparr>))
            | Rejected \<Rightarrow> ([AskForRootOfWebApp], Rejected)
            | Pending \<Rightarrow> ([AskForRootOfWebApp], Pending)))"
  by (simp add: rootDirectoryStep_def call_def resolveP_def thenP_pair split: outcome.splits)

lemma rootDirectoryStep_asks:
  assumes "\<not> truthyStr (rootDirectory c)" and "askForRootOfWebApp e = Resolved r"
  shows "rootDirectoryStep e c =
     ([AskForRootOfWebApp], Resolved (c\<lparr>rootDirectory :=
        Some (path_join [''.'', path_relative (cwd e) (cwd e) r, path_sep])\<rparr>))"
  using assms by (simp add: rootDirectoryStep_alt)

lemma globPatternsStep_alt:
  "globPatternsStep e c =
     (if globPatterns c \<noteq> None then ([], Resolved c)
      else (case askForExtensionsToCache e (rootDirectory c) of
              Resolved x \<Rightarrow> ([AskForExtensionsToCache (rootDirectory c)],
                 Resolved (c\<lparr>globPatterns := Some [generateGlobPattern e (rootDirectory c) x]\<rparr>))
            | Rejected \<Rightarrow> ([AskForExtensionsToCache (rootDirectory c)], Rejected)
            | Pending \<Rightarrow> ([AskForExtensionsToCache (rootDirectory c)], Pending)))"
  by (simp add: globPatternsStep_def call_def resolveP_def thenP_pair split: outcome.splits)

lemma destStep_alt:
  "destStep e c =
     (if truthyStr (dest c) then ([], Resolved c)
      else (case askForServiceWorkerName e of
              Resolved n \<Rightarrow>
                (case rootDirectory c of
                   None \<Rightarrow> ([AskForServiceWorkerName], Rejected)
                 | Some r \<Rightarrow> ([AskForServiceWorkerName],
                     Resolved (c\<lparr>dest := Some (path_join [r, n]),
                                globIgnores := Some [path_join [r, n]]\<rparr>)))
            | Rejected \<Rightarrow> ([AskForServiceWorkerName], Rejected)
            | Pending \<Rightarrow> ([AskForServiceWorkerName], Pending)))"
  by (simp add: destStep_def call_def resolveP_def rejectP_def thenP_pair Let_def
        split: outcome.splits option.splits)

lemma saveAndBuild_alt:
  "saveAndBuild e c =
     (if wasSaved c = Some True then ([GenerateSW c], swBuild_generateSW e c)
      else (case askSaveConfigFile e of
              Rejected \<Rightarrow> ([AskSaveConfigFile], Rejected)
            | Pending \<Rightarrow> ([AskSaveConfigFile], Pending)
            | Resolved False \<Rightarrow> ([AskSaveConfigFile, GenerateSW c], swBuild_generateSW e c)
            | Resolved True \<Rightarrow>
                (case saveConfigFile e c of
                   Rejected \<Rightarrow> ([AskSaveConfigFile, SaveConfigFile c], Rejected)
                 | Pending \<Rightarrow> ([AskSaveConfigFile, SaveConfigFile c], Pending)
                 | Resolved u \<Rightarrow> ([AskSaveConfigFile, SaveConfigFile c, GenerateSW c],
                                  swBuild_generateSW e c))))"
  by (simp add: saveAndBuild_def askSaveStep_def saveStep_def buildStep_def call_def resolveP_def
        thenP_pair split: outcome.splits)

lemma generateSW_split: "generateSW e = thenP (assembleConfig e) (saveAndBuild e)"
  by (simp add: generateSW_def assembleConfig_def saveAndBuild_def [abs_def] thenP_assoc)

lemma assembleConfig_unsettled:
  "getConfigFile e = Rejected \<Longrightarrow> assembleConfig e = ([GetConfigFile], Rejected)"
  "getConfigFile e = Pending \<Longrightarrow> assembleConfig e = ([GetConfigFile], Pending)"
  by (simp_all add: assembleConfig_def loadSavedConfig_alt thenP.simps)

lemma assembleConfig_loaded:
  "getConfigFile e = Resolved saved \<Longrightarrow>
     assembleConfig e =
       thenP ([GetConfigFile], Resolved (adoptSavedConfig saved)) (\<lambda>c0.
       thenP (rootDirectoryStep e c0) (\<lambda>c1.
       thenP (globPatternsStep e c1) (destStep e)))"
  by (simp add: assembleConfig_def loadSavedConfig_alt thenP_assoc)

lemma assembleConfig_fresh:
  assumes "getConfigFile e = Resolved None"
  shows "assembleConfig e =
     (case askForRootOfWebApp e of
        Rejected \<Rightarrow> ([GetConfigFile, AskForRootOfWebApp], Rejected)
      | Pending \<Rightarrow> ([GetConfigFile, AskForRootOfWebApp], Pending)
      | Resolved r \<Rightarrow>
          (let root = path_join [''.'', path_relative (cwd e) (cwd e) r, path_sep] in
           case askForExtensionsToCache e (Some root) of
             Rejected \<Rightarrow> ([GetConfigFile, AskForRootOfWebApp, AskForExtensionsToCache (Some root)], Rejected)
           | Pending \<Rightarrow> ([GetConfigFile, AskForRootOfWebApp, AskForExtensionsToCache (Some root)], Pending)
           | Resolved x \<Rightarrow>
               (case askForServiceWorkerName e of
                  Rejected \<Rightarrow> ([GetConfigFile, AskForRootOfWebApp, AskForExtensionsToCache (Some root),
                                 AskForServiceWorkerName], Rejected)
                | Pending \<Rightarrow> ([GetConfigFile, AskForRootOfWebApp, AskForExtensionsToCache (Some root),
                                AskForServiceWorkerName], Pending)
                | Resolved n \<Rightarrow> ([GetConfigFile, AskForRootOfWebApp, AskForExtensionsToCache (Some root),
                                   AskForServiceWorkerName],
                     Resolved \<lparr>rootDirectory = Some root,
                       globPatterns = Some [generateGlobPattern e (Some root) x],
                       globIgnores = Some [path_join [root, n]],
                       dest = Some (path_join [root, n]),
                       wasSaved = None\<rparr>))))"
  by (simp add: assembleConfig_loaded [OF assms] adoptSavedConfig_def emptyConfig_def
        rootDirectoryStep_alt globPatternsStep_alt destStep_alt truthyStr_def thenP_pair Let_def
        split: outcome.splits)

lemma assembleConfig_fields:
  assumes "getConfigFile e = Resolved saved" and "snd (assembleConfig e) = Resolved c"
  shows "wasSaved c = wasSaved (adoptSavedConfig saved)"
    and "truthyStr (dest (adoptSavedConfig saved)) \<Longrightarrow> dest c = dest (adoptSavedConfig saved) \<and> globIgnores c = globIgnores (adoptSavedConfig saved)"
    and "\<not> truthyStr (dest (adoptSavedConfig saved)) \<Longrightarrow> containsDest c"
  using assms
  by (auto simp: assembleConfig_loaded rootDirectoryStep_alt globPatternsStep_alt destStep_alt
        snd_thenP containsDest_def split: outcome.splits option.splits if_splits)

lemma assembleConfig_events:
  assumes "ev \<in> set (fst (assembleConfig e))"
  shows "ev = GetConfigFile \<or> promptFor ev \<noteq> None"
  using assms unfolding assembleConfig_def
proof (elim thenP_events [rotated 2])
  fix ev assume "ev \<in> set (fst (loadSavedConfig e))"
  then show "ev = GetConfigFile \<or> promptFor ev \<noteq> None"
    by (auto simp: loadSavedConfig_alt split: outcome.splits)
next
  fix c ev assume "ev \<in> set (fst (rootDirectoryStep e c))"
  then show "ev = GetConfigFile \<or> promptFor ev \<noteq> None"
    by (auto simp: rootDirectoryStep_alt split: outcome.splits if_splits)
next
  fix c ev assume "ev \<in> set (fst (globPatternsStep e c))"
  then show "ev = GetConfigFile \<or> promptFor ev \<noteq> None"
    by (auto simp: globPatternsStep_alt split: outcome.splits if_splits)
next
  fix c ev assume "ev \<in> set (fst (destStep e c))"
  then show "ev = GetConfigFile \<or> promptFor ev \<noteq> None"
    by (auto simp: destStep_alt split: outcome.splits option.splits if_splits)
qed

lemma generateSW_events:
  "ev \<in> set (fst (generateSW e)) \<longleftrightarrow>
     ev \<in> set (fst (assembleConfig e))
     \<or> (\<exists>c. snd (assembleConfig e) = Resolved c \<and> ev \<in> set (fst (saveAndBuild e c)))"
  by (auto simp: generateSW_split fst_thenP split: outcome.splits)

lemma saveAndBuild_GenerateSW:
  "GenerateSW cfg \<in> set (fst (saveAndBuild e c)) \<Longrightarrow> cfg = c"
  by (cases "askSaveConfigFile e"; cases "saveConfigFile e c")
     (simp_all add: saveAndBuild_alt split: if_split_asm bool.split_asm)

lemma saveAndBuild_Save:
  "SaveConfigFile cfg \<in> set (fst (saveAndBuild e c)) \<longleftrightarrow>
     cfg = c \<and> wasSaved c \<noteq> Some True \<and> askSaveConfigFile e = Resolved True"
  by (cases "askSaveConfigFile e"; cases "saveConfigFile e c")
     (auto simp: saveAndBuild_alt split: bool.split)



lemma generateSW_delegate:
  assumes "GenerateSW cfg \<in> set (fst (generateSW e))"
  shows "snd (assembleConfig e) = Resolved cfg"
proof -
  have "GenerateSW cfg \<notin> set (fst (assembleConfig e))"
    using assembleConfig_events [of "GenerateSW cfg" e] by auto
  with assms obtain c where "snd (assembleConfig e) = Resolved c"
    and "GenerateSW cfg \<in> set (fst (saveAndBuild e c))"
    unfolding generateSW_events by blast
  then show ?thesis
    using saveAndBuild_GenerateSW by blast
qed

lemma generateSW_saved:
  "SaveConfigFile cfg \<in> set (fst (generateSW e)) \<longleftrightarrow>
     snd (assembleConfig e) = Resolved cfg \<and> wasSaved cfg \<noteq> Some True
     \<and> askSaveConfigFile e = Resolved True"
proof -
  have "SaveConfigFile cfg \<notin> set (fst (assembleConfig e))"
    using assembleConfig_events [of "SaveConfigFile cfg" e] by auto
  then show ?thesis
    unfolding generateSW_events saveAndBuild_Save by auto
qed


lemma generateSW_all_saved:
  assumes "getConfigFile e = Resolved (Some c)"
    and "truthyStr (rootDirectory c)" and "globPatterns c \<noteq> None" and "truthyStr (dest c)"
  shows "generateSW e = ([GetConfigFile, GenerateSW (c\<lparr>wasSaved := Some True\<rparr>)],
           swBuild_generateSW e (c\<lparr>wasSaved := Some True\<rparr>))"
  using assms(2-)
  by (simp add: generateSW_split assembleConfig_loaded [OF assms(1)] adoptSavedConfig_def
        rootDirectoryStep_alt globPatternsStep_alt destStep_alt thenP_pair saveAndBuild_alt)


subsection \<open>The order of the prompts\<close>

lemma promptsRun_simps:
  "promptsRun [] = []"
  "promptsRun (ev # tr) = (case promptFor ev of None \<Rightarrow> promptsRun tr | Some f \<Rightarrow> f # promptsRun tr)"
  "promptsRun (tr @ tr') = promptsRun tr @ promptsRun tr'"
  by (simp_all add: promptsRun_def List.map_filter_simps split: option.splits)
     (simp add: map_filter_def)

lemma saveAndBuild_prompts: "promptsRun (fst (saveAndBuild e c)) = []"
  by (simp add: saveAndBuild_alt promptsRun_simps split: outcome.splits bool.splits)

lemma rootDirectoryStep_prompts:
  "promptsRun (fst (rootDirectoryStep e c)) = filter (fieldFalsy c) [RootDirectory]"
  by (simp add: rootDirectoryStep_alt promptsRun_simps split: outcome.splits)

lemma globPatternsStep_prompts:
  "promptsRun (fst (globPatternsStep e c)) = filter (fieldFalsy c) [GlobPatterns]"
  by (simp add: globPatternsStep_alt promptsRun_simps split: outcome.splits)

lemma destStep_prompts:
  "promptsRun (fst (destStep e c)) = filter (fieldFalsy c) [Dest]"
  by (simp add: destStep_alt promptsRun_simps split: outcome.splits option.splits)

lemma rootDirectoryStep_keeps:
  "snd (rootDirectoryStep e c) = Resolved c' \<Longrightarrow>
     fieldFalsy c' GlobPatterns = fieldFalsy c GlobPatterns \<and> fieldFalsy c' Dest = fieldFalsy c Dest"
  by (auto simp: rootDirectoryStep_alt split: outcome.splits if_splits)

lemma globPatternsStep_keeps:
  "snd (globPatternsStep e c) = Resolved c' \<Longrightarrow> fieldFalsy c' Dest = fieldFalsy c Dest"
  by (auto simp: globPatternsStep_alt split: outcome.splits if_splits)

lemma assembleConfig_prompts:
  assumes "getConfigFile e = Resolved saved"
  shows "prefix (filter (fieldFalsy (adoptSavedConfig saved)) [RootDirectory])
           (promptsRun (fst (assembleConfig e)))
         \<and> prefix (promptsRun (fst (assembleConfig e)))
           (filter (fieldFalsy (adoptSavedConfig saved)) [RootDirectory, GlobPatterns, Dest])
         \<and> ((\<exists>c. snd (assembleConfig e) = Resolved c) \<longrightarrow>
               promptsRun (fst (assembleConfig e)) =
                 filter (fieldFalsy (adoptSavedConfig saved)) [RootDirectory, GlobPatterns, Dest])"
proof -
  let ?c0 = "adoptSavedConfig saved"
  let ?want = "filter (fieldFalsy ?c0) [RootDirectory, GlobPatterns, Dest]"
  have want: "?want = filter (fieldFalsy ?c0) [RootDirectory] @ filter (fieldFalsy ?c0) [GlobPatterns]
     @ filter (fieldFalsy ?c0) [Dest]"
    by simp
  have tr: "promptsRun (fst (assembleConfig e)) =
      filter (fieldFalsy ?c0) [RootDirectory] @
      (case snd (rootDirectoryStep e ?c0) of
         Resolved c1 \<Rightarrow> filter (fieldFalsy c1) [GlobPatterns] @
           (case snd (globPatternsStep e c1) of
              Resolved c2 \<Rightarrow> filter (fieldFalsy c2) [Dest] | Rejected \<Rightarrow> [] | Pending \<Rightarrow> [])
       | Rejected \<Rightarrow> [] | Pending \<Rightarrow> [])"
    by (simp add: assembleConfig_loaded [OF assms] fst_thenP snd_thenP promptsRun_simps
          rootDirectoryStep_prompts globPatternsStep_prompts destStep_prompts
          split: outcome.splits)
  have sn: "snd (assembleConfig e) =
      (case snd (rootDirectoryStep e ?c0) of
         Resolved c1 \<Rightarrow>
           (case snd (globPatternsStep e c1) of
              Resolved c2 \<Rightarrow> snd (destStep e c2) | Rejected \<Rightarrow> Rejected | Pending \<Rightarrow> Pending)
       | Rejected \<Rightarrow> Rejected | Pending \<Rightarrow> Pending)"
    by (simp add: assembleConfig_loaded [OF assms] snd_thenP split: outcome.splits)
  have first: "prefix (filter (fieldFalsy ?c0) [RootDirectory]) (promptsRun (fst (assembleConfig e)))"
    unfolding tr by (rule prefixI) (rule refl)
  have rest: "prefix (promptsRun (fst (assembleConfig e))) ?want
         \<and> ((\<exists>c. snd (assembleConfig e) = Resolved c) \<longrightarrow>
               promptsRun (fst (assembleConfig e)) = ?want)"
  proof (cases "snd (rootDirectoryStep e ?c0)")
    case r: (Resolved c1)
    have k1: "fieldFalsy c1 GlobPatterns = fieldFalsy ?c0 GlobPatterns"
      "fieldFalsy c1 Dest = fieldFalsy ?c0 Dest"
      using rootDirectoryStep_keeps [OF r] by simp_all
    show ?thesis
    proof (cases "snd (globPatternsStep e c1)")
      case g: (Resolved c2)
      have k2: "fieldFalsy c2 Dest = fieldFalsy ?c0 Dest"
        using globPatternsStep_keeps [OF g] k1 by simp
      show ?thesis
        unfolding tr sn want by (simp add: r g k1 k2 del: fieldFalsy.simps)
    next
      case Rejected
      then show ?thesis
        unfolding tr sn want by (simp add: r k1 del: fieldFalsy.simps)
    next
      case Pending
      then show ?thesis
        unfolding tr sn want by (simp add: r k1 del: fieldFalsy.simps)
    qed
  next
    case Rejected
    then show ?thesis
      unfolding tr sn want by simp
  next
    case Pending
    then show ?thesis
      unfolding tr sn want by simp
  qed
  from first rest show ?thesis by blast
qed

lemma generateSW_prompts_eq:
  "promptsRun (fst (generateSW e)) = promptsRun (fst (assembleConfig e))"
  by (simp add: generateSW_split fst_thenP promptsRun_simps saveAndBuild_prompts
        split: outcome.splits)

lemma promptsRun_member:
  "f \<in> set (promptsRun tr) \<longleftrightarrow> (\<exists>ev \<in> set tr. promptFor ev = Some f)"
  by (induction tr) (auto simp: promptsRun_simps split: option.splits)

lemma promptFor_Some:
  "promptFor ev = Some RootDirectory \<longleftrightarrow> ev = AskForRootOfWebApp"
  "promptFor ev = Some GlobPatterns \<longleftrightarrow> (\<exists>r. ev = AskForExtensionsToCache r)"
  "promptFor ev = Some Dest \<longleftrightarrow> ev = AskForServiceWorkerName"
  by (cases ev; simp)+

lemma assembleConfig_prompts_exact:
  assumes "getConfigFile e = Resolved saved"
  shows "promptsRun (fst (assembleConfig e)) =
      filter (fieldFalsy (adoptSavedConfig saved)) [RootDirectory] @
      (case snd (rootDirectoryStep e (adoptSavedConfig saved)) of
         Resolved c1 \<Rightarrow> filter (fieldFalsy (adoptSavedConfig saved)) [GlobPatterns] @
           (case snd (globPatternsStep e c1) of
              Resolved c2 \<Rightarrow> filter (fieldFalsy (adoptSavedConfig saved)) [Dest]
            | Rejected \<Rightarrow> [] | Pending \<Rightarrow> [])
       | Rejected \<Rightarrow> [] | Pending \<Rightarrow> [])"
proof -
  let ?c0 = "adoptSavedConfig saved"
  have tr: "promptsRun (fst (assembleConfig e)) =
      filter (fieldFalsy ?c0) [RootDirectory] @
      (case snd (rootDirectoryStep e ?c0) of
         Resolved c1 \<Rightarrow> filter (fieldFalsy c1) [GlobPatterns] @
           (case snd (globPatternsStep e c1) of
              Resolved c2 \<Rightarrow> filter (fieldFalsy c2) [Dest] | Rejected \<Rightarrow> [] | Pending \<Rightarrow> [])
       | Rejected \<Rightarrow> [] | Pending \<Rightarrow> [])"
    by (simp add: assembleConfig_loaded [OF assms] fst_thenP snd_thenP promptsRun_simps
          rootDirectoryStep_prompts globPatternsStep_prompts destStep_prompts
          split: outcome.splits)
  show ?thesis
  proof (cases "snd (rootDirectoryStep e ?c0)")
    case r: (Resolved c1)
    have k1: "fieldFalsy c1 GlobPatterns = fieldFalsy ?c0 GlobPatterns"
      "fieldFalsy c1 Dest = fieldFalsy ?c0 Dest"
      using rootDirectoryStep_keeps [OF r] by simp_all
    show ?thesis
    proof (cases "snd (globPatternsStep e c1)")
      case g: (Resolved c2)
      have k2: "fieldFalsy c2 Dest = fieldFalsy ?c0 Dest"
        using globPatternsStep_keeps [OF g] k1 by simp
      show ?thesis
        unfolding tr by (simp add: r g k1 k2 del: fieldFalsy.simps)
    next
      case Rejected
      then show ?thesis
        unfolding tr by (simp add: r k1 del: fieldFalsy.simps)
    next
      case Pending
      then show ?thesis
        unfolding tr by (simp add: r k1 del: fieldFalsy.simps)
    qed
  next
    case Rejected
    then show ?thesis
      unfolding tr by simp
  next
    case Pending
    then show ?thesis
      unfolding tr by simp
  qed
qed

lemma generateSW_prompt_events:
  assumes "getConfigFile e = Resolved saved"
  shows "(AskForRootOfWebApp \<in> set (fst (generateSW e)) \<longleftrightarrow>
            fieldFalsy (adoptSavedConfig saved) RootDirectory)
     \<and> ((\<exists>r. AskForExtensionsToCache r \<in> set (fst (generateSW e))) \<longleftrightarrow>
            fieldFalsy (adoptSavedConfig saved) GlobPatterns
            \<and> (\<exists>c1. snd (rootDirectoryStep e (adoptSavedConfig saved)) = Resolved c1))
     \<and> (AskForServiceWorkerName \<in> set (fst (generateSW e)) \<longleftrightarrow>
            fieldFalsy (adoptSavedConfig saved) Dest
            \<and> (\<exists>c1 c2. snd (rootDirectoryStep e (adoptSavedConfig saved)) = Resolved c1
                   \<and> snd (globPatternsStep e c1) = Resolved c2))"
proof -
  let ?tr = "fst (generateSW e)"
  note ex = assembleConfig_prompts_exact [OF assms, folded generateSW_prompts_eq]
  have 1: "AskForRootOfWebApp \<in> set ?tr \<longleftrightarrow> RootDirectory \<in> set (promptsRun ?tr)"
    by (auto simp: promptsRun_member promptFor_Some)
  have 2: "(\<exists>r. AskForExtensionsToCache r \<in> set ?tr) \<longleftrightarrow> GlobPatterns \<in> set (promptsRun ?tr)"
    by (auto simp: promptsRun_member promptFor_Some)
  have 3: "AskForServiceWorkerName \<in> set ?tr \<longleftrightarrow> Dest \<in> set (promptsRun ?tr)"
    by (auto simp: promptsRun_member promptFor_Some)
  show ?thesis
  proof (cases "snd (rootDirectoryStep e (adoptSavedConfig saved))")
    case r: (Resolved c1)
    show ?thesis
    proof (cases "snd (globPatternsStep e c1)")
      case g: (Resolved c2)
      show ?thesis
        unfolding 1 2 3 ex by (simp add: r g del: fieldFalsy.simps)
    next
      case g: Rejected
      show ?thesis
        unfolding 1 2 3 ex by (simp add: r g del: fieldFalsy.simps)
    next
      case g: Pending
      show ?thesis
        unfolding 1 2 3 ex by (simp add: r g del: fieldFalsy.simps)
    qed
  next
    case r: Rejected
    show ?thesis
      unfolding 1 2 3 ex by (simp add: r del: fieldFalsy.simps)
  next
    case r: Pending
    show ?thesis
      unfolding 1 2 3 ex by (simp add: r del: fieldFalsy.simps)
  qed
qed

subsection \<open>Runs of the scripted environments\<close>

lemmas path_defs = path_join_def path_relative_def path_sep_def path_resolve_def
  normalizeString_def path_normalize_def segments_def

lemma generateSW_freshEnv:
  "generateSW freshEnv =
     ([GetConfigFile, AskForRootOfWebApp, AskForExtensionsToCache (Some ''build/''),
       AskForServiceWorkerName, AskSaveConfigFile, SaveConfigFile savedExample,
       GenerateSW savedExample], Resolved ())"
proof -
  have g: "getConfigFile freshEnv = Resolved None"
    by (simp add: freshEnv_def)
  have r: "path_join [''.'', path_relative ''/home/user/app'' ''/home/user/app'' ''build'', path_sep]
      = ''build/''"
    by (simp add: path_defs)
  have d: "path_join [''build/'', ''sw.js''] = ''build/sw.js''"
    by (simp add: path_defs)
  show ?thesis
    unfolding generateSW_split assembleConfig_fresh [OF g]
    by (simp add: freshEnv_def r d thenP_pair saveAndBuild_alt savedExample_def scriptedGlob_def
          Let_def)
qed

subsection \<open>The \<^verbatim>\<open>generate:manifest\<close> workflow\<close>

lemma generateBuildManifest_alt:
  "generateBuildManifest e =
     (case askForRootOfWebApp e of
        Rejected \<Rightarrow> ([AskForRootOfWebApp], Rejected)
      | Pending \<Rightarrow> ([AskForRootOfWebApp], Pending)
      | Resolved r \<Rightarrow>
          (case askForExtensionsToCache e (Some r) of
             Rejected \<Rightarrow> ([AskForRootOfWebApp, AskForExtensionsToCache (Some r)], Rejected)
           | Pending \<Rightarrow> ([AskForRootOfWebApp, AskForExtensionsToCache (Some r)], Pending)
           | Resolved x \<Rightarrow>
               (case askManifestFileName e of
                  Rejected \<Rightarrow> ([AskForRootOfWebApp, AskForExtensionsToCache (Some r),
                                 AskManifestFileName], Rejected)
                | Pending \<Rightarrow> ([AskForRootOfWebApp, AskForExtensionsToCache (Some r),
                                AskManifestFileName], Pending)
                | Resolved m \<Rightarrow>
                    ([AskForRootOfWebApp, AskForExtensionsToCache (Some r), AskManifestFileName,
                      GenerateFileManifest
                        \<lparr>rootDirectory = Some r,
                         globPatterns = Some [generateGlobPattern e (Some r) x],
                         globIgnores = Some [path_join [r, m]],
                         dest = Some (path_join [r, m]),
                         wasSaved = None\<rparr>],
                     swBuild_generateFileManifest e
                        \<lparr>rootDirectory = Some r,
                         globPatterns = Some [generateGlobPattern e (Some r) x],
                         globIgnores = Some [path_join [r, m]],
                         dest = Some (path_join [r, m]),
                         wasSaved = None\<rparr>))))"
  by (simp add: generateBuildManifest_def call_def thenP_pair Let_def split: outcome.splits)

lemma generateBuildManifest_freshEnv:
  "generateBuildManifest freshEnv =
     ([AskForRootOfWebApp, AskForExtensionsToCache (Some ''build''), AskManifestFileName,
       GenerateFileManifest manifestExample], Resolved ())"
proof -
  have p: "path_join [''build'', ''manifest.js''] = ''build/manifest.js''"
    by (simp add: path_defs)
  show ?thesis
    by (simp add: generateBuildManifest_alt freshEnv_def scriptedGlob_def p manifestExample_def)
qed

subsection \<open>Dispatch\<close>

lemma exitOn_alt:
  "exitOn p = (fst p, case snd p of Resolved u \<Rightarrow> Some 0 | Rejected \<Rightarrow> Some 1 | Pending \<Rightarrow> None)"
  by (cases p; cases "snd p") auto

lemma argv_alt:
  "argv e a =
     (case positional (minimist e a) of
        command # rest \<Rightarrow>
          (UpdateNotify # fst (handleCommand e command rest ((minimist e a)\<lparr>positional := [command]\<rparr>)),
           snd (exitOn (handleCommand e command rest ((minimist e a)\<lparr>positional := [command]\<rparr>))))
      | [] \<Rightarrow> (UpdateNotify # fst (handleFlag e (minimist e a)),
               snd (exitOn (handleFlag e (minimist e a)))))"
  by (simp add: argv_def Let_def exitOn_alt split: list.splits)

lemma handleFlag_alt:
  "handleFlag e flags =
     (let h = (truthy (flagValue flags ''h'') \<or> truthy (flagValue flags ''help''));
          v = (truthy (flagValue flags ''v'') \<or> truthy (flagValue flags ''version''))
      in if h \<and> v then ([Log (helpText e), Log (pkgVersion e)], Resolved ())
         else if h then ([Log (helpText e)], Resolved ())
         else if v then ([Log (pkgVersion e)], Resolved ())
         else ([Log (helpText e)], Rejected))"
  by (simp add: handleFlag_def printHelpText_def Let_def)

text \<open>
  Claim C1. An invocation whose handler promise (\<^verbatim>\<open>handleCommand\<close> when there is a
  positional token, \<^verbatim>\<open>handleFlag\<close> otherwise) resolves exits with status 0, one whose
  handler promise rejects exits with status 1, and no other exit status occurs. (While
  the handler promise is not settled the process does not exit.)
\<close>

theorem argv_exit_status:
  "(\<forall>command rest. positional (minimist e a) = command # rest \<longrightarrow>
      snd (argv e a) =
        (case snd (handleCommand e command rest ((minimist e a)\<lparr>positional := [command]\<rparr>)) of
           Resolved u \<Rightarrow> Some 0 | Rejected \<Rightarrow> Some 1 | Pending \<Rightarrow> None))
   \<and> (positional (minimist e a) = [] \<longrightarrow>
      snd (argv e a) =
        (case snd (handleFlag e (minimist e a)) of
           Resolved u \<Rightarrow> Some 0 | Rejected \<Rightarrow> Some 1 | Pending \<Rightarrow> None))
   \<and> (\<forall>n. snd (argv e a) = Some n \<longrightarrow> n = 0 \<or> n = 1)"
  by (auto simp: argv_alt exitOn_alt split: list.splits outcome.splits)

theorem argv_exit_status_witness:
  "positional (minimist freshEnv [''--version'']) = []
   \<and> snd (handleFlag freshEnv (minimist freshEnv [''--version''])) = Resolved ()
   \<and> snd (argv freshEnv [''--version'']) = Some 0
   \<and> positional (minimist freshEnv []) = []
   \<and> snd (handleFlag freshEnv (minimist freshEnv [])) = Rejected
   \<and> snd (argv freshEnv []) = Some 1
   \<and> positional (minimist freshEnv [''generate:sw'']) = [''generate:sw'']
   \<and> snd (argv freshEnv [''generate:sw'']) = Some 0
   \<and> positional (minimist freshEnv [''deploy'']) = [''deploy'']
   \<and> snd (argv freshEnv [''deploy'']) = Some 1"
proof -
  have p: "minimist freshEnv = scriptedParse"
    by (simp add: freshEnv_def)
  show ?thesis
    using argv_exit_status [of freshEnv "[''--version'']"] argv_exit_status [of freshEnv "[]"]
      argv_exit_status [of freshEnv "[''generate:sw'']"] argv_exit_status [of freshEnv "[''deploy'']"]
    by (simp add: p scriptedParse_def handleFlag_alt handleCommand_def generateSW_freshEnv)
qed

text \<open>
  Claim C2. A command other than \<^verbatim>\<open>generate:sw\<close> and \<^verbatim>\<open>generate:manifest\<close> is reported
  as an error and rejected, so the process exits with status 1.
\<close>

theorem handleCommand_invalid:
  "command \<noteq> ''generate:sw'' \<Longrightarrow> command \<noteq> ''generate:manifest'' \<Longrightarrow>
     handleCommand e command args flags = ([LogError (invalidCommandMessage command)], Rejected)
     \<and> (positional (minimist e a) = command # rest \<longrightarrow>
          argv e a = ([UpdateNotify, LogError (invalidCommandMessage command)], Some 1))"
  by (simp add: handleCommand_def argv_alt)

theorem handleCommand_invalid_witness:
  "''deploy'' \<noteq> ''generate:sw'' \<and> ''deploy'' \<noteq> ''generate:manifest''
   \<and> positional (minimist freshEnv [''deploy'', ''now'']) = [''deploy'', ''now'']
   \<and> argv freshEnv [''deploy'', ''now''] =
       ([UpdateNotify, LogError (''Invlaid command given '' @ [CHR 0x27] @ ''deploy'' @ [CHR 0x27])], Some 1)"
  using handleCommand_invalid [where command = "''deploy''" and e = freshEnv
      and a = "[''deploy'', ''now'']" and rest = "[''now'']"]
  by (simp add: freshEnv_def scriptedParse_def invalidCommandMessage_def)

text \<open>
  Claim C3. In flag-only mode, a help flag (\<^verbatim>\<open>h\<close> or \<^verbatim>\<open>help\<close>) prints the help text and
  the result is success; a version flag (\<^verbatim>\<open>v\<close> or \<^verbatim>\<open>version\<close>) prints the package version
  and the result is success; with neither, the help text is printed and the result is a
  rejection. A flag counts as set when its parsed value is truthy, which is the test of
  the code.
\<close>

theorem handleFlag_cases:
  "((truthy (flagValue flags ''h'') \<or> truthy (flagValue flags ''help'')) \<longrightarrow>
      Log (helpText e) \<in> set (fst (handleFlag e flags)) \<and> snd (handleFlag e flags) = Resolved ())
   \<and> ((truthy (flagValue flags ''v'') \<or> truthy (flagValue flags ''version'')) \<longrightarrow>
      Log (pkgVersion e) \<in> set (fst (handleFlag e flags)) \<and> snd (handleFlag e flags) = Resolved ())
   \<and> (\<not> truthy (flagValue flags ''h'') \<and> \<not> truthy (flagValue flags ''help'')
       \<and> \<not> truthy (flagValue flags ''v'') \<and> \<not> truthy (flagValue flags ''version'') \<longrightarrow>
      handleFlag e flags = ([Log (helpText e)], Rejected))
   \<and> (positional (minimist e a) = [] \<longrightarrow>
        argv e a = (UpdateNotify # fst (handleFlag e (minimist e a)),
                    if truthy (flagValue (minimist e a) ''h'') \<or> truthy (flagValue (minimist e a) ''help'')
                       \<or> truthy (flagValue (minimist e a) ''v'') \<or> truthy (flagValue (minimist e a) ''version'')
                    then Some 0 else Some 1))"
  by (auto simp: handleFlag_alt argv_alt exitOn_alt Let_def)

theorem handleFlag_cases_witness:
  "truthy (flagValue (minimist freshEnv [''--help'']) ''help'')
   \<and> handleFlag freshEnv (minimist freshEnv [''--help'']) = ([Log (helpText freshEnv)], Resolved ())
   \<and> truthy (flagValue (minimist freshEnv [''-v'']) ''v'')
   \<and> handleFlag freshEnv (minimist freshEnv [''-v'']) = ([Log (pkgVersion freshEnv)], Resolved ())
   \<and> \<not> truthy (flagValue (minimist freshEnv [''--verbose'']) ''h'')
   \<and> handleFlag freshEnv (minimist freshEnv [''--verbose'']) = ([Log (helpText freshEnv)], Rejected)
   \<and> positional (minimist freshEnv [''--verbose'']) = []
   \<and> argv freshEnv [''--verbose''] = ([UpdateNotify, Log (helpText freshEnv)], Some 1)"
proof -
  have p: "minimist freshEnv = scriptedParse"
    by (simp add: freshEnv_def)
  show ?thesis
    using handleFlag_cases [of "minimist freshEnv [''--help'']" freshEnv "[''--verbose'']"]
      handleFlag_cases [of "minimist freshEnv [''-v'']" freshEnv "[''--verbose'']"]
      handleFlag_cases [of "minimist freshEnv [''--verbose'']" freshEnv "[''--verbose'']"]
    by (simp add: p scriptedParse_def handleFlag_alt)
qed

text \<open>
  Claim C10. In flag-only mode with both a help flag and a version flag set, the help
  text and then the version are printed, and the process exits with status 0.
\<close>

theorem handleFlag_help_and_version:
  "positional (minimist e a) = [] \<Longrightarrow>
   truthy (flagValue (minimist e a) ''h'') \<or> truthy (flagValue (minimist e a) ''help'') \<Longrightarrow>
   truthy (flagValue (minimist e a) ''v'') \<or> truthy (flagValue (minimist e a) ''version'') \<Longrightarrow>
     handleFlag e (minimist e a) = ([Log (helpText e), Log (pkgVersion e)], Resolved ())
     \<and> argv e a = ([UpdateNotify, Log (helpText e), Log (pkgVersion e)], Some 0)"
  by (auto simp: handleFlag_alt argv_alt exitOn_alt Let_def)

theorem handleFlag_help_and_version_witness:
  "positional (minimist freshEnv [''-h'', ''--version'']) = []
   \<and> truthy (flagValue (minimist freshEnv [''-h'', ''--version'']) ''h'')
   \<and> truthy (flagValue (minimist freshEnv [''-h'', ''--version'']) ''version'')
   \<and> argv freshEnv [''-h'', ''--version''] =
       ([UpdateNotify, Log ''Usage: sw-cli <command>'', Log ''0.0.1''], Some 0)"
  using handleFlag_help_and_version [where e = freshEnv and a = "[''-h'', ''--version'']"]
  by (simp add: freshEnv_def scriptedParse_def)

subsection \<open>The workflows\<close>

text \<open>
  Claim C4. The answer to the root directory prompt is stored as
  \<^verbatim>\<open>path.join('.', path.relative(process.cwd(), answer), path.sep)\<close>. From every
  absolute working directory, the empty answer gives \<^verbatim>\<open>./\<close>, as the claim says, and a
  directory name such as \<^verbatim>\<open>build\<close> gives \<^verbatim>\<open>build/\<close>, not the \<^verbatim>\<open>./build/\<close> of the
  claim and of the comment in the source: \<^verbatim>\<open>path.join\<close> normalizes its result, which
  removes the leading \<^verbatim>\<open>.\<close> segment.
\<close>

theorem rootDirectory_of_answer:
  assumes "cwd e \<noteq> []" and "hd (cwd e) = CHR ''/''" and "\<not> truthyStr (rootDirectory c)"
  shows "(askForRootOfWebApp e = Resolved [] \<longrightarrow>
            rootDirectoryStep e c =
              ([AskForRootOfWebApp], Resolved (c\<lparr>rootDirectory := Some ''./''\<rparr>)))
     \<and> (\<forall>n. simpleName n \<and> askForRootOfWebApp e = Resolved n \<longrightarrow>
            rootDirectoryStep e c =
              ([AskForRootOfWebApp], Resolved (c\<lparr>rootDirectory := Some (n @ ''/'')\<rparr>))
            \<and> n @ ''/'' \<noteq> ''./'' @ n @ ''/'')"
proof -
  have "length (n @ ''/'') \<noteq> length (''./'' @ n @ ''/'')" for n :: string
    by simp
  then have "n @ ''/'' \<noteq> ''./'' @ n @ ''/''" for n :: string
    by metis
  then show ?thesis
    using assms
    by (simp add: rootDirectoryStep_asks path_relative_self path_relative_child
          path_join_dot_empty path_join_dot_name del: append.simps)
qed

theorem rootDirectory_of_answer_witness:
  "cwd freshEnv = ''/home/user/app''
   \<and> \<not> truthyStr (rootDirectory emptyConfig)
   \<and> simpleName ''build''
   \<and> askForRootOfWebApp freshEnv = Resolved ''build''
   \<and> rootDirectoryStep freshEnv emptyConfig =
       ([AskForRootOfWebApp], Resolved (emptyConfig\<lparr>rootDirectory := Some ''build/''\<rparr>))
   \<and> ''build/'' \<noteq> ''./build/''
   \<and> GenerateSW savedExample \<in> set (fst (generateSW freshEnv))
   \<and> rootDirectory savedExample = Some ''build/''
   \<and> askForRootOfWebApp emptyAnswerEnv = Resolved ''''
   \<and> rootDirectoryStep emptyAnswerEnv emptyConfig =
       ([AskForRootOfWebApp], Resolved (emptyConfig\<lparr>rootDirectory := Some ''./''\<rparr>))"
proof -
  have a: "cwd freshEnv = ''/home/user/app''" "askForRootOfWebApp freshEnv = Resolved ''build''"
    "cwd emptyAnswerEnv = ''/home/user/app''" "askForRootOfWebApp emptyAnswerEnv = Resolved ''''"
    by (simp_all add: freshEnv_def emptyAnswerEnv_def)
  have c: "\<not> truthyStr (rootDirectory emptyConfig)"
    by (simp add: emptyConfig_def truthyStr_def)
  have "rootDirectoryStep freshEnv emptyConfig =
       ([AskForRootOfWebApp], Resolved (emptyConfig\<lparr>rootDirectory := Some ''build/''\<rparr>))"
    using rootDirectory_of_answer [of freshEnv emptyConfig] a c simpleName_build by simp
  moreover have "rootDirectoryStep emptyAnswerEnv emptyConfig =
       ([AskForRootOfWebApp], Resolved (emptyConfig\<lparr>rootDirectory := Some ''./''\<rparr>))"
    using rootDirectory_of_answer [of emptyAnswerEnv emptyConfig] a c by simp
  ultimately show ?thesis
    using a c simpleName_build by (simp add: generateSW_freshEnv savedExample_def)
qed

text \<open>
  Claim C5, as amended. The configuration handed to the manifest delegate always has its
  \<^verbatim>\<open>dest\<close> among its \<^verbatim>\<open>globIgnores\<close>, and so has every configuration that
  \<^verbatim>\<open>generate:sw\<close> saves. The configuration handed to the service worker delegate has it
  exactly when \<^verbatim>\<open>dest\<close> was prompted for in this run (it was falsy in the loaded
  configuration) or the loaded configuration already had it: a loaded configuration
  with a \<^verbatim>\<open>dest\<close> keeps the \<^verbatim>\<open>globIgnores\<close> it was saved with.
\<close>

theorem globIgnores_contains_dest:
  "(\<forall>cfg. GenerateFileManifest cfg \<in> set (fst (generateBuildManifest e)) \<longrightarrow> containsDest cfg)
   \<and> (\<forall>cfg. SaveConfigFile cfg \<in> set (fst (generateSW e)) \<longrightarrow> containsDest cfg)
   \<and> (\<forall>saved cfg. getConfigFile e = Resolved saved
          \<and> GenerateSW cfg \<in> set (fst (generateSW e)) \<longrightarrow>
        (containsDest cfg \<longleftrightarrow>
           \<not> truthyStr (dest (adoptSavedConfig saved)) \<or> containsDest (adoptSavedConfig saved)))"
proof (intro conjI allI impI)
  fix cfg assume "GenerateFileManifest cfg \<in> set (fst (generateBuildManifest e))"
  then show "containsDest cfg"
    by (auto simp: generateBuildManifest_alt containsDest_def split: outcome.splits)
next
  fix cfg assume "SaveConfigFile cfg \<in> set (fst (generateSW e))"
  then have c: "snd (assembleConfig e) = Resolved cfg" and w: "wasSaved cfg \<noteq> Some True"
    by (simp_all add: generateSW_saved)
  from c obtain saved where g: "getConfigFile e = Resolved saved"
    by (cases "getConfigFile e") (simp_all add: assembleConfig_unsettled)
  from assembleConfig_fields(1) [OF g c] w have "saved = None"
    by (cases saved) (simp_all add: adoptSavedConfig_def)
  then have "\<not> truthyStr (dest (adoptSavedConfig saved))"
    by (simp add: adoptSavedConfig_def emptyConfig_def truthyStr_def)
  then show "containsDest cfg"
    by (rule assembleConfig_fields(3) [OF g c])
next
  fix saved cfg
  assume a: "getConfigFile e = Resolved saved \<and> GenerateSW cfg \<in> set (fst (generateSW e))"
  then have g: "getConfigFile e = Resolved saved" and c: "snd (assembleConfig e) = Resolved cfg"
    by (simp_all add: generateSW_delegate)
  show "containsDest cfg \<longleftrightarrow>
      \<not> truthyStr (dest (adoptSavedConfig saved)) \<or> containsDest (adoptSavedConfig saved)"
  proof (cases "truthyStr (dest (adoptSavedConfig saved))")
    case True
    from assembleConfig_fields(2) [OF g c True]
    have "containsDest cfg = containsDest (adoptSavedConfig saved)"
      by (auto simp: containsDest_def split: option.splits)
    with True show ?thesis by simp
  next
    case False
    then have "containsDest cfg"
      by (rule assembleConfig_fields(3) [OF g c])
    with False show ?thesis by simp
  qed
qed

theorem globIgnores_contains_dest_witness:
  "getConfigFile freshEnv = Resolved None
   \<and> GenerateSW savedExample \<in> set (fst (generateSW freshEnv))
   \<and> \<not> truthyStr (dest (adoptSavedConfig None))
   \<and> SaveConfigFile savedExample \<in> set (fst (generateSW freshEnv))
   \<and> containsDest savedExample
   \<and> GenerateFileManifest manifestExample \<in> set (fst (generateBuildManifest freshEnv))
   \<and> containsDest manifestExample"
proof -
  have g: "getConfigFile freshEnv = Resolved None"
    by (simp add: freshEnv_def)
  have d: "\<not> truthyStr (dest (adoptSavedConfig None))"
    by (simp add: adoptSavedConfig_def emptyConfig_def truthyStr_def)
  have m: "GenerateSW savedExample \<in> set (fst (generateSW freshEnv))"
    "SaveConfigFile savedExample \<in> set (fst (generateSW freshEnv))"
    by (simp_all add: generateSW_freshEnv)
  have b: "GenerateFileManifest manifestExample \<in> set (fst (generateBuildManifest freshEnv))"
    by (simp add: generateBuildManifest_freshEnv)
  from globIgnores_contains_dest [of freshEnv] g d m have "containsDest savedExample"
    by blast
  moreover from globIgnores_contains_dest [of freshEnv] b have "containsDest manifestExample"
    by blast
  ultimately show ?thesis
    using g d m b by simp
qed

text \<open>
  The claim as stated fails on a saved configuration that names an output path and no
  ignored paths: no prompt runs and the delegate receives it unchanged.
\<close>

theorem globIgnores_contains_dest_counterexample:
  "fst (generateSW noIgnoresEnv) =
     [GetConfigFile, GenerateSW (savedExample\<lparr>globIgnores := None, wasSaved := Some True\<rparr>)]
   \<and> \<not> containsDest (savedExample\<lparr>globIgnores := None, wasSaved := Some True\<rparr>)"
proof -
  have g: "getConfigFile noIgnoresEnv = Resolved (Some (savedExample\<lparr>globIgnores := None\<rparr>))"
    by (simp add: noIgnoresEnv_def)
  show ?thesis
    by (simp add: generateSW_all_saved [OF g] savedExample_def truthyStr_def containsDest_def)
qed



text \<open>
  Claim C7. In \<^verbatim>\<open>generate:sw\<close>, with the saved configuration read, each prompt whose
  callback the chain reaches runs if and only if its field is unset in the loaded
  configuration, unset being the test of the code (\<^verbatim>\<open>!config.field\<close>): the root
  directory prompt runs exactly when \<^verbatim>\<open>rootDirectory\<close> is unset, the extensions prompt
  exactly when \<^verbatim>\<open>globPatterns\<close> is unset and the callback before it resolved, the
  service worker name prompt exactly when \<^verbatim>\<open>dest\<close> is unset and the two callbacks
  before it resolved. The prompts run in that fixed order, and a run that reaches the
  delegate has asked exactly the prompts of the unset fields. When the saved
  configuration supplies all three fields, no prompt runs and the delegate is called
  directly with the loaded configuration, marked \<^verbatim>\<open>wasSaved\<close>.
\<close>

theorem generateSW_prompts:
  assumes "getConfigFile e = Resolved saved"
  shows "(AskForRootOfWebApp \<in> set (fst (generateSW e)) \<longleftrightarrow>
            fieldFalsy (adoptSavedConfig saved) RootDirectory)
     \<and> ((\<exists>r. AskForExtensionsToCache r \<in> set (fst (generateSW e))) \<longleftrightarrow>
            fieldFalsy (adoptSavedConfig saved) GlobPatterns
            \<and> (\<exists>c1. snd (rootDirectoryStep e (adoptSavedConfig saved)) = Resolved c1))
     \<and> (AskForServiceWorkerName \<in> set (fst (generateSW e)) \<longleftrightarrow>
            fieldFalsy (adoptSavedConfig saved) Dest
            \<and> (\<exists>c1 c2. snd (rootDirectoryStep e (adoptSavedConfig saved)) = Resolved c1
                   \<and> snd (globPatternsStep e c1) = Resolved c2))
     \<and> prefix (filter (fieldFalsy (adoptSavedConfig saved)) [RootDirectory])
           (promptsRun (fst (generateSW e)))
     \<and> prefix (promptsRun (fst (generateSW e)))
           (filter (fieldFalsy (adoptSavedConfig saved)) [RootDirectory, GlobPatterns, Dest])
     \<and> ((\<exists>c. GenerateSW c \<in> set (fst (generateSW e))) \<longrightarrow>
           promptsRun (fst (generateSW e)) =
             filter (fieldFalsy (adoptSavedConfig saved)) [RootDirectory, GlobPatterns, Dest])
     \<and> (\<forall>c. saved = Some c \<and> truthyStr (rootDirectory c) \<and> globPatterns c \<noteq> None
            \<and> truthyStr (dest c) \<longrightarrow>
           generateSW e = ([GetConfigFile, GenerateSW (c\<lparr>wasSaved := Some True\<rparr>)],
             swBuild_generateSW e (c\<lparr>wasSaved := Some True\<rparr>)))"
proof -
  have rest: "prefix (filter (fieldFalsy (adoptSavedConfig saved)) [RootDirectory])
           (promptsRun (fst (generateSW e)))
     \<and> prefix (promptsRun (fst (generateSW e)))
           (filter (fieldFalsy (adoptSavedConfig saved)) [RootDirectory, GlobPatterns, Dest])
     \<and> ((\<exists>c. GenerateSW c \<in> set (fst (generateSW e))) \<longrightarrow>
           promptsRun (fst (generateSW e)) =
             filter (fieldFalsy (adoptSavedConfig saved)) [RootDirectory, GlobPatterns, Dest])
     \<and> (\<forall>c. saved = Some c \<and> truthyStr (rootDirectory c) \<and> globPatterns c \<noteq> None
            \<and> truthyStr (dest c) \<longrightarrow>
           generateSW e = ([GetConfigFile, GenerateSW (c\<lparr>wasSaved := Some True\<rparr>)],
             swBuild_generateSW e (c\<lparr>wasSaved := Some True\<rparr>)))"
    using assembleConfig_prompts [OF assms] generateSW_delegate [of _ e]
      generateSW_all_saved [of e] assms
    unfolding generateSW_prompts_eq by blast
  from generateSW_prompt_events [OF assms] rest show ?thesis
    by (intro conjI) blast+
qed

theorem generateSW_prompts_witness:
  "getConfigFile savedEnv = Resolved (Some savedExample)
   \<and> promptsRun (fst (generateSW savedEnv)) = []
   \<and> AskForRootOfWebApp \<notin> set (fst (generateSW savedEnv))
   \<and> AskForServiceWorkerName \<notin> set (fst (generateSW savedEnv))
   \<and> generateSW savedEnv =
       ([GetConfigFile, GenerateSW (savedExample\<lparr>wasSaved := Some True\<rparr>)], Resolved ())
   \<and> getConfigFile freshEnv = Resolved None
   \<and> GenerateSW savedExample \<in> set (fst (generateSW freshEnv))
   \<and> AskForRootOfWebApp \<in> set (fst (generateSW freshEnv))
   \<and> promptsRun (fst (generateSW freshEnv)) = [RootDirectory, GlobPatterns, Dest]"
proof -
  have g: "getConfigFile savedEnv = Resolved (Some savedExample)"
    by (simp add: savedEnv_def)
  have g': "getConfigFile freshEnv = Resolved None"
    by (simp add: freshEnv_def)
  have f: "filter (fieldFalsy (adoptSavedConfig (Some savedExample)))
      [RootDirectory, GlobPatterns, Dest] = []"
    by (simp add: adoptSavedConfig_def savedExample_def truthyStr_def)
  have f': "filter (fieldFalsy (adoptSavedConfig None)) [RootDirectory, GlobPatterns, Dest] =
      [RootDirectory, GlobPatterns, Dest]"
    by (simp add: adoptSavedConfig_def emptyConfig_def truthyStr_def)
  have ff: "\<not> fieldFalsy (adoptSavedConfig (Some savedExample)) RootDirectory"
    "\<not> fieldFalsy (adoptSavedConfig (Some savedExample)) Dest"
    "fieldFalsy (adoptSavedConfig None) RootDirectory"
    by (simp_all add: adoptSavedConfig_def savedExample_def emptyConfig_def truthyStr_def)
  have s: "truthyStr (rootDirectory savedExample)" "globPatterns savedExample \<noteq> None"
    "truthyStr (dest savedExample)"
    by (simp_all add: savedExample_def truthyStr_def)
  have b: "swBuild_generateSW savedEnv c = Resolved ()" for c
    by (simp add: savedEnv_def freshEnv_def)
  have d: "GenerateSW savedExample \<in> set (fst (generateSW freshEnv))"
    by (simp add: generateSW_freshEnv)
  have "generateSW savedEnv =
      ([GetConfigFile, GenerateSW (savedExample\<lparr>wasSaved := Some True\<rparr>)],
       swBuild_generateSW savedEnv (savedExample\<lparr>wasSaved := Some True\<rparr>))"
    using generateSW_prompts [OF g] s by blast
  moreover have "promptsRun (fst (generateSW savedEnv)) = []"
    using generateSW_prompts [OF g, unfolded f] by simp
  moreover have "AskForRootOfWebApp \<notin> set (fst (generateSW savedEnv))"
    "AskForServiceWorkerName \<notin> set (fst (generateSW savedEnv))"
    using generateSW_prompts [OF g] ff by blast+
  moreover have "AskForRootOfWebApp \<in> set (fst (generateSW freshEnv))"
    using generateSW_prompts [OF g'] ff by blast
  moreover have "promptsRun (fst (generateSW freshEnv)) = [RootDirectory, GlobPatterns, Dest]"
    using generateSW_prompts [OF g', unfolded f'] d by blast
  ultimately show ?thesis
    by (simp add: g g' b d)
qed

text \<open>
  An empty string is unset for this test: a root directory saved as the empty string is
  asked for again.
\<close>

lemma generateSW_empty_rootDirectory:
  "getConfigFile emptyRootEnv = Resolved (Some (savedExample\<lparr>rootDirectory := Some ''''\<rparr>))
   \<and> fieldFalsy (adoptSavedConfig (Some (savedExample\<lparr>rootDirectory := Some ''''\<rparr>))) RootDirectory
   \<and> fst (generateSW emptyRootEnv) =
       [GetConfigFile, AskForRootOfWebApp,
        GenerateSW (savedExample\<lparr>rootDirectory := Some ''build/'', wasSaved := Some True\<rparr>)]"
  by (simp add: emptyRootEnv_def freshEnv_def savedExample_def generateSW_split
        assembleConfig_loaded adoptSavedConfig_def rootDirectoryStep_alt globPatternsStep_alt
        destStep_alt thenP_pair saveAndBuild_alt truthyStr_def path_join_def path_relative_def
        path_sep_def path_resolve_def normalizeString_def path_normalize_def segments_def)

text \<open>
  Claim C8. \<^verbatim>\<open>generate:manifest\<close> starts with the root directory prompt on every run,
  never reads or writes the config store (it behaves the same whatever the store
  holds), and calls the manifest delegate only with the record of root directory, the
  one glob pattern, and the manifest path as both the only ignored path and \<^verbatim>\<open>dest\<close>;
  the record has no \<^verbatim>\<open>wasSaved\<close>.
\<close>

theorem generateBuildManifest_contract:
  "(\<forall>r x m. askForRootOfWebApp e = Resolved r \<and> askForExtensionsToCache e (Some r) = Resolved x
        \<and> askManifestFileName e = Resolved m \<longrightarrow>
      fst (generateBuildManifest e) =
        [AskForRootOfWebApp, AskForExtensionsToCache (Some r), AskManifestFileName,
         GenerateFileManifest
           \<lparr>rootDirectory = Some r,
            globPatterns = Some [generateGlobPattern e (Some r) x],
            globIgnores = Some [path_join [r, m]],
            dest = Some (path_join [r, m]),
            wasSaved = None\<rparr>])
   \<and> (\<forall>cfg. GenerateFileManifest cfg \<in> set (fst (generateBuildManifest e)) \<longrightarrow>
        (\<exists>r x m. askForRootOfWebApp e = Resolved r \<and> askForExtensionsToCache e (Some r) = Resolved x
           \<and> askManifestFileName e = Resolved m
           \<and> cfg = \<lparr>rootDirectory = Some r,
                    globPatterns = Some [generateGlobPattern e (Some r) x],
                    globIgnores = Some [path_join [r, m]],
                    dest = Some (path_join [r, m]),
                    wasSaved = None\<rparr>))
   \<and> hd (fst (generateBuildManifest e)) = AskForRootOfWebApp
   \<and> GetConfigFile \<notin> set (fst (generateBuildManifest e))
   \<and> AskSaveConfigFile \<notin> set (fst (generateBuildManifest e))
   \<and> (\<forall>c. SaveConfigFile c \<notin> set (fst (generateBuildManifest e)))
   \<and> (\<forall>g. generateBuildManifest (e\<lparr>getConfigFile := g\<rparr>) = generateBuildManifest e)
   \<and> (\<forall>s. generateBuildManifest (e\<lparr>saveConfigFile := s\<rparr>) = generateBuildManifest e)"
proof -
  have "generateBuildManifest (e\<lparr>getConfigFile := g\<rparr>) = generateBuildManifest e" for g
    by (simp add: generateBuildManifest_def)
  moreover have "generateBuildManifest (e\<lparr>saveConfigFile := s\<rparr>) = generateBuildManifest e" for s
    by (simp add: generateBuildManifest_def)
  ultimately show ?thesis
    by (simp add: generateBuildManifest_alt split: outcome.splits)
qed

theorem generateBuildManifest_contract_witness:
  "askForRootOfWebApp savedEnv = Resolved ''build''
   \<and> askForExtensionsToCache savedEnv (Some ''build'') = Resolved [''html'']
   \<and> askManifestFileName savedEnv = Resolved ''manifest.js''
   \<and> getConfigFile savedEnv = Resolved (Some savedExample)
   \<and> fst (generateBuildManifest savedEnv) =
        [AskForRootOfWebApp, AskForExtensionsToCache (Some ''build''), AskManifestFileName,
         GenerateFileManifest manifestExample]
   \<and> generateBuildManifest savedEnv = generateBuildManifest freshEnv
   \<and> GenerateFileManifest manifestExample \<in> set (fst (generateBuildManifest freshEnv))"
proof -
  have a: "askForRootOfWebApp savedEnv = Resolved ''build''"
    "askForExtensionsToCache savedEnv (Some ''build'') = Resolved [''html'']"
    "askManifestFileName savedEnv = Resolved ''manifest.js''"
    "getConfigFile savedEnv = Resolved (Some savedExample)"
    by (simp_all add: savedEnv_def freshEnv_def)
  have p: "path_join [''build'', ''manifest.js''] = ''build/manifest.js''"
    by (simp add: path_defs)
  have q: "generateGlobPattern savedEnv (Some ''build'') [''html''] = ''build**/*.html''"
    by (simp add: savedEnv_def freshEnv_def scriptedGlob_def)
  have "fst (generateBuildManifest savedEnv) =
        [AskForRootOfWebApp, AskForExtensionsToCache (Some ''build''), AskManifestFileName,
         GenerateFileManifest manifestExample]"
    using generateBuildManifest_contract [of savedEnv, THEN conjunct1, rule_format,
        of "''build''" "[''html'']" "''manifest.js''"] a
    by (simp add: p q manifestExample_def)
  moreover have "generateBuildManifest savedEnv = generateBuildManifest freshEnv"
    using generateBuildManifest_contract [of freshEnv]
    unfolding savedEnv_def by blast
  ultimately show ?thesis
    using a by (simp add: generateBuildManifest_freshEnv)
qed

subsection \<open>Command mode\<close>













end
